theory Spec2Isabelle
  imports Complex_Main
begin

section \<open>Demand Overlap Coefficients: the data model\<close>

text \<open>
  The module \<^verbatim>\<open>run_DOC_calculation.py\<close> computes three Demand Overlap Coefficients
  from heating and cooling demand time series. A demand series is a numpy array of
  float64 values; it is modelled as a \<open>real list\<close>, and the sums, products and
  quotients of the model are those of the real numbers. The model therefore follows the
  code in everything that does not depend on how float64 rounds or overflows:
  which indices are read and in which order, which exception is raised and when,
  whether a value is returned, that \<open>0 / 0\<close> is NaN, and that \<open>x - x\<close> is exactly zero.
  It does not follow the code in the digits of a result: where the code rounds a sum or
  a quotient, or lets a sum overflow to infinity, the model carries the exact number.
  A quotient named in a theorem below is this exact number, standing for the rounded one
  the code returns. What the theorems assert of the code is which error is raised, that
  zero demand gives NaN, which entries a result depends on, and that residuals are
  exactly zero; none of them is a statement about the digits of a coefficient.

  Python raises where an index is out of range and where an \<open>int\<close> is divided by the
  \<open>int\<close> zero; both are values of \<open>py_error\<close>. numpy raises ValueError where two
  arrays of different shape are stacked, or subtracted with no way to broadcast one
  onto the other.
\<close>

datatype py_error = IndexError | ZeroDivisionError | ValueError

text \<open>
  The intermediate numbers of the three functions are either Python integers (the
  literal \<open>2\<close> and the start value \<open>0\<close> of the builtin \<open>sum\<close>) or numpy scalars
  (everything that comes out of \<open>np.min\<close> or out of an array).
\<close>

datatype pynum = PyInt int | NpFloat real

text \<open>The value returned by the true division \<open>/\<close>.\<close>

datatype float_val = Finite real | NaN | PosInf | NegInf

fun val :: "pynum \<Rightarrow> real" where
  "val (PyInt i) = of_int i"
| "val (NpFloat r) = r"

fun py_add :: "pynum \<Rightarrow> pynum \<Rightarrow> pynum" where
  "py_add (PyInt a) (PyInt b) = PyInt (a + b)"
| "py_add (PyInt a) (NpFloat y) = NpFloat (of_int a + y)"
| "py_add (NpFloat x) (PyInt b) = NpFloat (x + of_int b)"
| "py_add (NpFloat x) (NpFloat y) = NpFloat (x + y)"

fun py_mul :: "pynum \<Rightarrow> pynum \<Rightarrow> pynum" where
  "py_mul (PyInt a) (PyInt b) = PyInt (a * b)"
| "py_mul (PyInt a) (NpFloat y) = NpFloat (of_int a * y)"
| "py_mul (NpFloat x) (PyInt b) = NpFloat (x * of_int b)"
| "py_mul (NpFloat x) (NpFloat y) = NpFloat (x * y)"

text \<open>
  numpy's scalar division does not raise: a zero divisor gives NaN for \<open>0 / 0\<close> and a
  signed infinity otherwise (with a RuntimeWarning on the console only).
\<close>

definition np_divide :: "real \<Rightarrow> real \<Rightarrow> float_val" where
  "np_divide a b =
     (if b \<noteq> 0 then Finite (a / b)
      else if a = 0 then NaN
      else if 0 < a then PosInf else NegInf)"

text \<open>
  \<open>counter / denominator\<close>: between two Python integers a zero divisor raises
  ZeroDivisionError; as soon as one operand is a numpy scalar the division is numpy's.
\<close>

fun truediv :: "pynum \<Rightarrow> pynum \<Rightarrow> py_error + float_val" where
  "truediv (PyInt a) (PyInt b) =
     (if b = 0 then Inl ZeroDivisionError else Inr (Finite (of_int a / of_int b)))"
| "truediv (PyInt a) (NpFloat y) = Inr (np_divide (of_int a) y)"
| "truediv (NpFloat x) (PyInt b) = Inr (np_divide x (of_int b))"
| "truediv (NpFloat x) (NpFloat y) = Inr (np_divide x y)"

text \<open>\<open>np.min([a, b])\<close> and \<open>np.min([a, b], 0)\<close> of two scalars.\<close>

definition np_min :: "real \<Rightarrow> real \<Rightarrow> pynum" where
  "np_min a b = NpFloat (min a b)"

text \<open>Sequencing of computations that may raise.\<close>

fun exc_bind :: "py_error + 'a \<Rightarrow> ('a \<Rightarrow> py_error + 'b) \<Rightarrow> py_error + 'b" where
  "exc_bind (Inl e) f = Inl e"
| "exc_bind (Inr x) f = f x"

text \<open>\<open>xs[k]\<close> for an index produced by \<open>range\<close> (never negative).\<close>

definition getitem :: "'a list \<Rightarrow> nat \<Rightarrow> py_error + 'a" where
  "getitem xs k = (if k < length xs then Inr (xs ! k) else Inl IndexError)"

text \<open>\<open>xss[b][t]\<close>, read as a numpy scalar.\<close>

definition getitem2 :: "real list list \<Rightarrow> nat \<Rightarrow> nat \<Rightarrow> py_error + pynum" where
  "getitem2 xss b t =
     exc_bind (getitem xss b) (\<lambda>xs. exc_bind (getitem xs t) (\<lambda>x. Inr (NpFloat x)))"

definition range_py :: "nat \<Rightarrow> nat list" where
  "range_py n = [0..<n]"

text \<open>
  The builtin \<open>sum\<close> over a generator expression: the accumulator starts at the
  integer \<open>0\<close>, the generator's items are computed and added one after the other from
  the left, and the first item that raises ends the whole sum.
\<close>

fun sum_from :: "pynum \<Rightarrow> (nat \<Rightarrow> py_error + pynum) \<Rightarrow> nat list \<Rightarrow> py_error + pynum" where
  "sum_from acc f [] = Inr acc"
| "sum_from acc f (k # ks) =
     (case f k of Inl e \<Rightarrow> Inl e | Inr v \<Rightarrow> sum_from (py_add acc v) f ks)"

definition py_sum :: "(nat \<Rightarrow> py_error + pynum) \<Rightarrow> nat list \<Rightarrow> py_error + pynum" where
  "py_sum f ks = sum_from (PyInt 0) f ks"

section \<open>The three coefficients\<close>

text \<open>
  \<^verbatim>\<open>
  def calc_DOC(heat_dem, cool_dem):
      t_steps = range(len(heat_dem))
      counter = sum((2 * np.min([heat_dem[k], cool_dem[k]])) for k in t_steps)
      denominator = sum((heat_dem[k] + cool_dem[k]) for k in t_steps)
      return counter / denominator
  \<close>
\<close>

definition calc_DOC :: "real list \<Rightarrow> real list \<Rightarrow> py_error + float_val" where
  "calc_DOC heat_dem cool_dem =
     (let t_steps = range_py (length heat_dem) in
      exc_bind
        (py_sum (\<lambda>k. exc_bind (getitem heat_dem k) (\<lambda>h.
                     exc_bind (getitem cool_dem k) (\<lambda>c.
                       Inr (py_mul (PyInt 2) (np_min h c))))) t_steps)
        (\<lambda>counter.
      exc_bind
        (py_sum (\<lambda>k. exc_bind (getitem heat_dem k) (\<lambda>h.
                     exc_bind (getitem cool_dem k) (\<lambda>c.
                       Inr (py_add (NpFloat h) (NpFloat c))))) t_steps)
        (\<lambda>denominator.
      truediv counter denominator)))"

text \<open>
  \<^verbatim>\<open>
  def calc_mean_BES_DOC(heat_dem_list, cool_dem_list):
      t_steps = range(len(heat_dem_list[0]))
      bldgs = range(len(heat_dem_list))
      counter = 2 * sum(
          sum(np.min([heat_dem_list[b][t], cool_dem_list[b][t]], 0) for b in bldgs)
          for t in t_steps)
      denominator = sum(
          sum(heat_dem_list[b][t] for b in bldgs)
          + sum(cool_dem_list[b][t] for b in bldgs)
          for t in t_steps)
      return counter / denominator
  \<close>
  The expression of the denominator is the same, token for token, in
  \<open>calc_mean_BES_DOC\<close> and in \<open>calc_Network_DOC\<close>; it is written once, as
  \<open>denominator_sum\<close>.
\<close>

definition denominator_sum ::
    "real list list \<Rightarrow> real list list \<Rightarrow> nat list \<Rightarrow> nat list \<Rightarrow> py_error + pynum" where
  "denominator_sum heat_dem_list cool_dem_list bldgs t_steps =
     py_sum (\<lambda>t. exc_bind (py_sum (\<lambda>b. getitem2 heat_dem_list b t) bldgs) (\<lambda>sh.
                 exc_bind (py_sum (\<lambda>b. getitem2 cool_dem_list b t) bldgs) (\<lambda>sc.
                   Inr (py_add sh sc)))) t_steps"

definition calc_mean_BES_DOC ::
    "real list list \<Rightarrow> real list list \<Rightarrow> py_error + float_val" where
  "calc_mean_BES_DOC heat_dem_list cool_dem_list =
     exc_bind (getitem heat_dem_list 0) (\<lambda>h0.
       let t_steps = range_py (length h0);
           bldgs = range_py (length heat_dem_list) in
       exc_bind
         (py_sum (\<lambda>t.
            py_sum (\<lambda>b. exc_bind (getitem heat_dem_list b) (\<lambda>hb.
                        exc_bind (getitem hb t) (\<lambda>h.
                        exc_bind (getitem cool_dem_list b) (\<lambda>cb.
                        exc_bind (getitem cb t) (\<lambda>c.
                          Inr (np_min h c)))))) bldgs) t_steps)
         (\<lambda>s. let counter = py_mul (PyInt 2) s in
       exc_bind (denominator_sum heat_dem_list cool_dem_list bldgs t_steps)
         (\<lambda>denominator.
       truediv counter denominator)))"

text \<open>
  \<^verbatim>\<open>
  def calc_Network_DOC(heat_dem_list, cool_dem_list):
      t_steps = range(len(heat_dem_list[0]))
      bldgs = range(len(heat_dem_list))
      counter = 2 * sum(np.min([sum(heat_dem_list[b][t] for b in bldgs),
                                sum(cool_dem_list[b][t] for b in bldgs)], 0)
                        for t in t_steps)
      denominator = sum(sum(heat_dem_list[b][t] for b in bldgs)
                        + sum(cool_dem_list[b][t] for b in bldgs) for t in t_steps)
      return counter / denominator
  \<close>
\<close>

definition calc_Network_DOC ::
    "real list list \<Rightarrow> real list list \<Rightarrow> py_error + float_val" where
  "calc_Network_DOC heat_dem_list cool_dem_list =
     exc_bind (getitem heat_dem_list 0) (\<lambda>h0.
       let t_steps = range_py (length h0);
           bldgs = range_py (length heat_dem_list) in
       exc_bind
         (py_sum (\<lambda>t.
            exc_bind (py_sum (\<lambda>b. getitem2 heat_dem_list b t) bldgs) (\<lambda>sh.
            exc_bind (py_sum (\<lambda>b. getitem2 cool_dem_list b t) bldgs) (\<lambda>sc.
              Inr (np_min (val sh) (val sc))))) t_steps)
         (\<lambda>s. let counter = py_mul (PyInt 2) s in
       exc_bind (denominator_sum heat_dem_list cool_dem_list bldgs t_steps)
         (\<lambda>denominator.
       truediv counter denominator)))"

section \<open>The net-demand computation of the example script\<close>

text \<open>
  \<^verbatim>\<open>
  bal_1 = np.min([heat_demand_BES_1, cold_demand_BES_1], 0)       # Eq. (9)
  heat_net_demand_1 = heat_demand_BES_1 - bal_1                   # Eq. (13)
  cold_net_demand_1 = cold_demand_BES_1 - bal_1                   # Eq. (14)
  \<close>
  \<open>np.min\<close> along axis 0 of two stacked arrays works element by element; numpy
  refuses to stack two arrays of different length. The array subtraction works
  element by element on arrays of one length, and broadcasts an array of length 1 onto
  the other one; any other pair of lengths is a ValueError.
\<close>

definition np_min_axis0 :: "real list \<Rightarrow> real list \<Rightarrow> py_error + real list" where
  "np_min_axis0 a b =
     (if length a = length b then Inr (map2 min a b) else Inl ValueError)"

definition np_subtract :: "real list \<Rightarrow> real list \<Rightarrow> py_error + real list" where
  "np_subtract a b =
     (if length a = length b then Inr (map2 (-) a b)
      else if length b = 1 then Inr (map (\<lambda>x. x - b ! 0) a)
      else if length a = 1 then Inr (map (\<lambda>y. a ! 0 - y) b)
      else Inl ValueError)"

definition net_demand :: "real list \<Rightarrow> real list \<Rightarrow> py_error + real list \<times> real list" where
  "net_demand heat_demand_BES cold_demand_BES =
     exc_bind (np_min_axis0 heat_demand_BES cold_demand_BES) (\<lambda>bal.
     exc_bind (np_subtract heat_demand_BES bal) (\<lambda>heat_net_demand.
     exc_bind (np_subtract cold_demand_BES bal) (\<lambda>cold_net_demand.
       Inr (heat_net_demand, cold_net_demand))))"

section \<open>Shapes of the inputs\<close>

text \<open>
  The functions check nothing about their arguments. Every index they compute stays in
  range when each list they walk along is at least as long as the list that gave the
  range: \<open>cool_dem_list\<close> has an entry for every building of \<open>heat_dem_list\<close>, and
  every series read has an entry for every time step of \<open>heat_dem_list[0]\<close>.
\<close>

definition index_safe :: "real list list \<Rightarrow> real list list \<Rightarrow> bool" where
  "index_safe hl cl \<longleftrightarrow>
     hl \<noteq> [] \<and> length hl \<le> length cl \<and>
     (\<forall>b<length hl. length (hl ! 0) \<le> length (hl ! b) \<and> length (hl ! 0) \<le> length (cl ! b))"

text \<open>
  The inputs the coefficients of several buildings are meant for: at least one building,
  as many cooling series as heating series, all series with the time steps of the first
  one, no negative demand.
\<close>

definition nonneg :: "real list \<Rightarrow> bool" where
  "nonneg xs \<longleftrightarrow> (\<forall>x\<in>set xs. 0 \<le> x)"

definition valid_input :: "real list list \<Rightarrow> real list list \<Rightarrow> bool" where
  "valid_input hl cl \<longleftrightarrow>
     hl \<noteq> [] \<and> length cl = length hl \<and>
     (\<forall>xs\<in>set hl. length xs = length (hl ! 0) \<and> nonneg xs) \<and>
     (\<forall>xs\<in>set cl. length xs = length (hl ! 0) \<and> nonneg xs)"

section \<open>What the builtin sum computes\<close>

lemma sum_from_NpFloat:
  "(\<forall>k\<in>set ks. f k = Inr (NpFloat (g k))) \<Longrightarrow>
   sum_from (NpFloat a) f ks = Inr (NpFloat (a + sum_list (map g ks)))"
  by (induction ks arbitrary: a) (simp_all add: add.assoc)

lemma py_sum_Nil: "py_sum f [] = Inr (PyInt 0)"
  by (simp add: py_sum_def)

lemma py_sum_NpFloat:
  assumes "ks \<noteq> []" and "\<forall>k\<in>set ks. f k = Inr (NpFloat (g k))"
  shows "py_sum f ks = Inr (NpFloat (sum_list (map g ks)))"
proof (cases ks)
  case Nil
  with assms show ?thesis by simp
next
  case (Cons k ks')
  with assms have "\<forall>j\<in>set ks'. f j = Inr (NpFloat (g j))" and "f k = Inr (NpFloat (g k))"
    by simp_all
  then show ?thesis
    unfolding py_sum_def Cons by (simp add: sum_from_NpFloat)
qed

lemma sum_from_IndexError:
  assumes "\<exists>k\<in>set ks. f k = Inl IndexError"
    and "\<forall>k\<in>set ks. f k = Inl IndexError \<or> (\<exists>v. f k = Inr v)"
  shows "sum_from acc f ks = Inl IndexError"
  using assms
  by (induction ks arbitrary: acc) (auto split: sum.splits)

lemma sum_list_range: "sum_list (map g (range_py n)) = (\<Sum>k<n. g k)"
  by (simp add: range_py_def interv_sum_list_conv_sum_set_nat atLeast0LessThan)

lemma calc_DOC_eq:
  assumes "length heat \<le> length cool"
  shows "calc_DOC heat cool =
     (if heat = [] then Inl ZeroDivisionError
      else Inr (np_divide (2 * (\<Sum>k<length heat. min (heat ! k) (cool ! k)))
                          (\<Sum>k<length heat. heat ! k + cool ! k)))"
proof (cases "heat = []")
  case True
  then show ?thesis by (simp add: calc_DOC_def range_py_def py_sum_Nil)
next
  case False
  let ?ks = "range_py (length heat)"
  have ne: "?ks \<noteq> []" using False by (simp add: range_py_def)
  have c: "py_sum (\<lambda>k. exc_bind (getitem heat k) (\<lambda>h.
                     exc_bind (getitem cool k) (\<lambda>c.
                       Inr (py_mul (PyInt 2) (np_min h c))))) ?ks
      = Inr (NpFloat (sum_list (map (\<lambda>k. 2 * min (heat ! k) (cool ! k)) ?ks)))"
    using assms by (intro py_sum_NpFloat ne) (simp add: range_py_def getitem_def np_min_def)
  have d: "py_sum (\<lambda>k. exc_bind (getitem heat k) (\<lambda>h.
                     exc_bind (getitem cool k) (\<lambda>c.
                       Inr (py_add (NpFloat h) (NpFloat c))))) ?ks
      = Inr (NpFloat (sum_list (map (\<lambda>k. heat ! k + cool ! k) ?ks)))"
    using assms by (intro py_sum_NpFloat ne) (simp add: range_py_def getitem_def)
  show ?thesis
    using False unfolding calc_DOC_def Let_def c d
    by (simp add: sum_list_range sum_distrib_left)
qed

lemma calc_DOC_short:
  assumes "length cool < length heat"
  shows "calc_DOC heat cool = Inl IndexError"
proof -
  let ?ks = "range_py (length heat)"
  have "py_sum (\<lambda>k. exc_bind (getitem heat k) (\<lambda>h.
                     exc_bind (getitem cool k) (\<lambda>c.
                       Inr (py_mul (PyInt 2) (np_min h c))))) ?ks = Inl IndexError"
    unfolding py_sum_def
  proof (rule sum_from_IndexError)
    show "\<exists>k\<in>set ?ks. exc_bind (getitem heat k) (\<lambda>h.
                     exc_bind (getitem cool k) (\<lambda>c.
                       Inr (py_mul (PyInt 2) (np_min h c)))) = Inl IndexError"
      using assms by (intro bexI[of _ "length cool"]) (simp_all add: range_py_def getitem_def)
    show "\<forall>k\<in>set ?ks. exc_bind (getitem heat k) (\<lambda>h.
                     exc_bind (getitem cool k) (\<lambda>c.
                       Inr (py_mul (PyInt 2) (np_min h c)))) = Inl IndexError \<or>
          (\<exists>v. exc_bind (getitem heat k) (\<lambda>h.
                     exc_bind (getitem cool k) (\<lambda>c.
                       Inr (py_mul (PyInt 2) (np_min h c)))) = Inr v)"
      by (simp add: range_py_def getitem_def)
  qed
  then show ?thesis by (simp add: calc_DOC_def)
qed

lemma set_range_py: "k \<in> set (range_py n) \<longleftrightarrow> k < n"
  by (simp add: range_py_def)

lemma range_py_Nil: "range_py n = [] \<longleftrightarrow> n = 0"
  by (simp add: range_py_def)

lemma getitem2_in_range:
  "b < length xss \<Longrightarrow> t < length (xss ! b) \<Longrightarrow> getitem2 xss b t = Inr (NpFloat (xss ! b ! t))"
  by (simp add: getitem2_def getitem_def)

lemma column_sum:
  assumes "0 < E" and "E \<le> length xss" and "\<forall>b<E. t < length (xss ! b)"
  shows "py_sum (\<lambda>b. getitem2 xss b t) (range_py E) = Inr (NpFloat (\<Sum>b<E. xss ! b ! t))"
proof -
  have "py_sum (\<lambda>b. getitem2 xss b t) (range_py E)
      = Inr (NpFloat (sum_list (map (\<lambda>b. xss ! b ! t) (range_py E))))"
    using assms by (intro py_sum_NpFloat) (simp_all add: range_py_def getitem2_in_range)
  then show ?thesis by (simp add: sum_list_range)
qed

lemma denominator_sum_eq:
  assumes "index_safe hl cl" and "0 < T" and "T \<le> length (hl ! 0)"
  shows "denominator_sum hl cl (range_py (length hl)) (range_py T)
       = Inr (NpFloat (\<Sum>t<T. (\<Sum>b<length hl. hl ! b ! t) + (\<Sum>b<length hl. cl ! b ! t)))"
proof -
  let ?E = "length hl"
  have E: "0 < ?E" "?E \<le> length cl" using assms(1) by (simp_all add: index_safe_def)
  have item: "exc_bind (py_sum (\<lambda>b. getitem2 hl b t) (range_py ?E)) (\<lambda>sh.
              exc_bind (py_sum (\<lambda>b. getitem2 cl b t) (range_py ?E)) (\<lambda>sc.
                Inr (py_add sh sc)))
            = Inr (NpFloat ((\<Sum>b<?E. hl ! b ! t) + (\<Sum>b<?E. cl ! b ! t)))"
    if "t < T" for t
  proof -
    have "\<forall>b<?E. t < length (hl ! b)" "\<forall>b<?E. t < length (cl ! b)"
      using assms that by (auto simp: index_safe_def dest!: spec)
    then show ?thesis using E by (simp add: column_sum)
  qed
  have "denominator_sum hl cl (range_py ?E) (range_py T)
      = Inr (NpFloat (sum_list (map (\<lambda>t. (\<Sum>b<?E. hl ! b ! t) + (\<Sum>b<?E. cl ! b ! t)) (range_py T))))"
    unfolding denominator_sum_def
    using assms(2) by (intro py_sum_NpFloat) (simp_all add: set_range_py range_py_Nil item)
  then show ?thesis by (simp add: sum_list_range)
qed

lemma calc_mean_BES_DOC_eq:
  assumes "index_safe hl cl"
  shows "calc_mean_BES_DOC hl cl =
     (if hl ! 0 = [] then Inl ZeroDivisionError
      else Inr (np_divide
        (2 * (\<Sum>t<length (hl ! 0). \<Sum>b<length hl. min (hl ! b ! t) (cl ! b ! t)))
        (\<Sum>t<length (hl ! 0). (\<Sum>b<length hl. hl ! b ! t) + (\<Sum>b<length hl. cl ! b ! t))))"
proof -
  let ?E = "length hl" and ?T = "length (hl ! 0)"
  have E: "0 < ?E" "?E \<le> length cl" using assms by (simp_all add: index_safe_def)
  have h0: "getitem hl 0 = Inr (hl ! 0)" using E by (simp add: getitem_def)
  show ?thesis
  proof (cases "hl ! 0 = []")
    case True
    then show ?thesis
      by (simp add: calc_mean_BES_DOC_def h0 range_py_def py_sum_Nil denominator_sum_def)
  next
    case False
    then have T: "0 < ?T" by simp
    have inner: "py_sum (\<lambda>b. exc_bind (getitem hl b) (\<lambda>hb.
                        exc_bind (getitem hb t) (\<lambda>h.
                        exc_bind (getitem cl b) (\<lambda>cb.
                        exc_bind (getitem cb t) (\<lambda>c.
                          Inr (np_min h c)))))) (range_py ?E)
         = Inr (NpFloat (\<Sum>b<?E. min (hl ! b ! t) (cl ! b ! t)))" if "t < ?T" for t
    proof -
      have "\<forall>b<?E. t < length (hl ! b) \<and> t < length (cl ! b)"
        using assms that by (auto simp: index_safe_def dest!: spec)
      then have "py_sum (\<lambda>b. exc_bind (getitem hl b) (\<lambda>hb.
                        exc_bind (getitem hb t) (\<lambda>h.
                        exc_bind (getitem cl b) (\<lambda>cb.
                        exc_bind (getitem cb t) (\<lambda>c.
                          Inr (np_min h c)))))) (range_py ?E)
         = Inr (NpFloat (sum_list (map (\<lambda>b. min (hl ! b ! t) (cl ! b ! t)) (range_py ?E))))"
        using E by (intro py_sum_NpFloat) (simp_all add: range_py_def getitem_def np_min_def)
      then show ?thesis by (simp add: sum_list_range)
    qed
    have outer: "py_sum (\<lambda>t.
            py_sum (\<lambda>b. exc_bind (getitem hl b) (\<lambda>hb.
                        exc_bind (getitem hb t) (\<lambda>h.
                        exc_bind (getitem cl b) (\<lambda>cb.
                        exc_bind (getitem cb t) (\<lambda>c.
                          Inr (np_min h c)))))) (range_py ?E)) (range_py ?T)
       = Inr (NpFloat (sum_list (map (\<lambda>t. \<Sum>b<?E. min (hl ! b ! t) (cl ! b ! t)) (range_py ?T))))"
      using T by (intro py_sum_NpFloat) (simp_all add: set_range_py range_py_Nil inner)
    show ?thesis
      using False T
      unfolding calc_mean_BES_DOC_def h0 Let_def exc_bind.simps outer
        denominator_sum_eq[OF assms T order_refl]
      by (simp add: sum_list_range)
  qed
qed

lemma calc_Network_DOC_eq:
  assumes "index_safe hl cl"
  shows "calc_Network_DOC hl cl =
     (if hl ! 0 = [] then Inl ZeroDivisionError
      else Inr (np_divide
        (2 * (\<Sum>t<length (hl ! 0). min (\<Sum>b<length hl. hl ! b ! t) (\<Sum>b<length hl. cl ! b ! t)))
        (\<Sum>t<length (hl ! 0). (\<Sum>b<length hl. hl ! b ! t) + (\<Sum>b<length hl. cl ! b ! t))))"
proof -
  let ?E = "length hl" and ?T = "length (hl ! 0)"
  have E: "0 < ?E" "?E \<le> length cl" using assms by (simp_all add: index_safe_def)
  have h0: "getitem hl 0 = Inr (hl ! 0)" using E by (simp add: getitem_def)
  show ?thesis
  proof (cases "hl ! 0 = []")
    case True
    then show ?thesis
      by (simp add: calc_Network_DOC_def h0 range_py_def py_sum_Nil denominator_sum_def)
  next
    case False
    then have T: "0 < ?T" by simp
    have item: "exc_bind (py_sum (\<lambda>b. getitem2 hl b t) (range_py ?E)) (\<lambda>sh.
            exc_bind (py_sum (\<lambda>b. getitem2 cl b t) (range_py ?E)) (\<lambda>sc.
              Inr (np_min (val sh) (val sc))))
         = Inr (NpFloat (min (\<Sum>b<?E. hl ! b ! t) (\<Sum>b<?E. cl ! b ! t)))" if "t < ?T" for t
    proof -
      have "\<forall>b<?E. t < length (hl ! b)" "\<forall>b<?E. t < length (cl ! b)"
        using assms that by (auto simp: index_safe_def dest!: spec)
      then show ?thesis using E by (simp add: column_sum np_min_def)
    qed
    have outer: "py_sum (\<lambda>t.
            exc_bind (py_sum (\<lambda>b. getitem2 hl b t) (range_py ?E)) (\<lambda>sh.
            exc_bind (py_sum (\<lambda>b. getitem2 cl b t) (range_py ?E)) (\<lambda>sc.
              Inr (np_min (val sh) (val sc))))) (range_py ?T)
       = Inr (NpFloat (sum_list (map (\<lambda>t. min (\<Sum>b<?E. hl ! b ! t) (\<Sum>b<?E. cl ! b ! t)) (range_py ?T))))"
      using T by (intro py_sum_NpFloat) (simp_all add: set_range_py range_py_Nil item)
    show ?thesis
      using False T
      unfolding calc_Network_DOC_def h0 Let_def exc_bind.simps outer
        denominator_sum_eq[OF assms T order_refl]
      by (simp add: sum_list_range)
  qed
qed

section \<open>Overlap and total demand of one pair of series\<close>

lemma nonneg_nth: "nonneg xs \<Longrightarrow> t < length xs \<Longrightarrow> 0 \<le> xs ! t"
  by (simp add: nonneg_def)

lemma overlap_nonneg:
  assumes "length heat = length cool" "nonneg heat" "nonneg cool"
  shows "0 \<le> (\<Sum>t<length heat. min (heat ! t) (cool ! t))"
  using assms by (intro sum_nonneg) (simp add: nonneg_nth)

lemma overlap_le_total:
  "2 * (\<Sum>t<n. min (heat ! t) (cool ! t)) \<le> (\<Sum>t<n. heat ! t + cool ! (t::nat) :: real)"
  unfolding sum_distrib_left by (intro sum_mono) simp

lemma calc_DOC_take:
  assumes "length heat \<le> length cool"
  shows "calc_DOC heat (take (length heat) cool) = calc_DOC heat cool"
proof -
  have "length heat \<le> length (take (length heat) cool)" using assms by simp
  then show ?thesis
    unfolding calc_DOC_eq [OF assms] by (simp add: calc_DOC_eq)
qed

section \<open>Overlap and total demand of several buildings\<close>

text \<open>The definitions a concrete call is evaluated with.\<close>

lemmas eval_defs = calc_DOC_def calc_mean_BES_DOC_def calc_Network_DOC_def denominator_sum_def
  py_sum_def range_py_def getitem_def getitem2_def np_min_def np_divide_def

lemma valid_input_index_safe:
  assumes "valid_input hl cl"
  shows "index_safe hl cl"
proof -
  from assms have ne: "hl \<noteq> []" and len: "length cl = length hl"
    and h: "\<forall>xs\<in>set hl. length xs = length (hl ! 0) \<and> nonneg xs"
    and c: "\<forall>xs\<in>set cl. length xs = length (hl ! 0) \<and> nonneg xs"
    unfolding valid_input_def by blast+
  have "length (hl ! 0) \<le> length (hl ! b) \<and> length (hl ! 0) \<le> length (cl ! b)"
    if "b < length hl" for b
  proof -
    have "hl ! b \<in> set hl" "cl ! b \<in> set cl" using that len by simp_all
    with h c have "length (hl ! b) = length (hl ! 0)" "length (cl ! b) = length (hl ! 0)"
      by blast+
    then show ?thesis by simp
  qed
  with ne len show ?thesis unfolding index_safe_def by simp
qed

lemma valid_input_nonneg:
  assumes "valid_input hl cl" and "e < length hl" and "t < length (hl ! 0)"
  shows "0 \<le> hl ! e ! t" and "0 \<le> cl ! e ! t"
proof -
  from assms(1) have len: "length cl = length hl"
    and h: "\<forall>xs\<in>set hl. length xs = length (hl ! 0) \<and> nonneg xs"
    and c: "\<forall>xs\<in>set cl. length xs = length (hl ! 0) \<and> nonneg xs"
    unfolding valid_input_def by blast+
  have "hl ! e \<in> set hl" "cl ! e \<in> set cl"
    using assms(2) len by simp_all
  with h c have "t < length (hl ! e)" "nonneg (hl ! e)" "t < length (cl ! e)" "nonneg (cl ! e)"
    using assms(3) by metis+
  then show "0 \<le> hl ! e ! t" and "0 \<le> cl ! e ! t"
    by (simp_all add: nonneg_nth)
qed

lemma total_by_entity:
  "(\<Sum>t<T. (\<Sum>e<E. hl ! e ! t) + (\<Sum>e<E. cl ! e ! t))
   = (\<Sum>t<T. \<Sum>e<E. hl ! e ! t + cl ! e ! (t::nat) :: real)"
  by (simp add: sum.distrib)

lemma sum_min_le_min_sum:
  "(\<Sum>e<E. min (f e) (g e)) \<le> min (\<Sum>e<E. f e) (\<Sum>e<E. g e :: real)"
proof -
  have "(\<Sum>e<E. min (f e) (g e)) \<le> (\<Sum>e<E. f e)" by (intro sum_mono) simp
  moreover have "(\<Sum>e<E. min (f e) (g e)) \<le> (\<Sum>e<E. g e)" by (intro sum_mono) simp
  ultimately show ?thesis by simp
qed

lemma network_overlap_le_total:
  "2 * (\<Sum>t<T. min (F t) (G t)) \<le> (\<Sum>t<T. F t + G t :: real)"
  unfolding sum_distrib_left by (intro sum_mono) simp


lemma network_ge_mean_overlap:
  "(\<Sum>t<T. \<Sum>e<E. min (hl ! e ! t) (cl ! e ! t))
   \<le> (\<Sum>t<T. min (\<Sum>e<E. hl ! e ! t) (\<Sum>e<E. cl ! e ! (t::nat) :: real))"
  by (intro sum_mono sum_min_le_min_sum)

lemma mean_overlap_nonneg:
  assumes "valid_input hl cl"
  shows "0 \<le> (\<Sum>t<length (hl ! 0). \<Sum>e<length hl. min (hl ! e ! t) (cl ! e ! t))"
proof (intro sum_nonneg)
  fix t e assume "t \<in> {..<length (hl ! 0)}" "e \<in> {..<length hl}"
  then have "e < length hl" "t < length (hl ! 0)" by simp_all
  from valid_input_nonneg [OF assms this] show "0 \<le> min (hl ! e ! t) (cl ! e ! t)" by simp
qed

lemma zero_total_overlaps:
  assumes "valid_input hl cl"
    and "(\<Sum>t<length (hl ! 0). \<Sum>e<length hl. hl ! e ! t + cl ! e ! t) = 0"
  shows "(\<Sum>t<length (hl ! 0). \<Sum>e<length hl. min (hl ! e ! t) (cl ! e ! t)) = 0"
    and "(\<Sum>t<length (hl ! 0). min (\<Sum>e<length hl. hl ! e ! t) (\<Sum>e<length hl. cl ! e ! t)) = 0"
proof -
  let ?T = "length (hl ! 0)" and ?E = "length hl"
  let ?M = "\<Sum>t<?T. \<Sum>e<?E. min (hl ! e ! t) (cl ! e ! t)"
  let ?N = "\<Sum>t<?T. min (\<Sum>e<?E. hl ! e ! t) (\<Sum>e<?E. cl ! e ! t)"
  have "2 * ?N \<le> (\<Sum>t<?T. (\<Sum>e<?E. hl ! e ! t) + (\<Sum>e<?E. cl ! e ! t))"
    by (rule network_overlap_le_total)
  also have "\<dots> = 0" unfolding total_by_entity by (rule assms(2))
  finally have N: "?N \<le> 0" by simp
  have M: "0 \<le> ?M" by (rule mean_overlap_nonneg [OF assms(1)])
  have MN: "?M \<le> ?N" by (rule network_ge_mean_overlap)
  from N M MN show "?M = 0" and "?N = 0" by linarith+
qed

section \<open>What the net-demand computation returns\<close>

lemma net_demand_eq:
  assumes "length heat = length cold"
  shows "net_demand heat cold =
     Inr (map2 (\<lambda>h c. h - min h c) heat cold, map2 (\<lambda>h c. c - min h c) heat cold)"
proof -
  have 1: "map2 (-) heat (map2 min heat cold) = map2 (\<lambda>h c. h - min h c) heat cold"
    using assms by (intro nth_equalityI) simp_all
  have 2: "map2 (-) cold (map2 min heat cold) = map2 (\<lambda>h c. c - min h c) heat cold"
    using assms by (intro nth_equalityI) simp_all
  show ?thesis
    using assms by (simp add: net_demand_def np_min_axis0_def np_subtract_def 1 2)
qed

section \<open>The single-series coefficient\<close>

text \<open>
  Claim C10, as amended. \<open>calc_DOC\<close> walks along the indices of \<open>heat_dem\<close> only. When
  \<open>heat_dem\<close> is not empty and \<open>cool_dem\<close> is at least as long, the call returns a value
  and that value is the same for every \<open>cool_dem\<close> with the same first \<open>len(heat_dem)\<close>
  entries: what follows them is ignored. When \<open>cool_dem\<close> is shorter than \<open>heat_dem\<close>,
  indexing it raises IndexError.
\<close>

theorem calc_DOC_ignores_tail:
  "(heat \<noteq> [] \<and> length heat \<le> length cool \<longrightarrow>
      (\<exists>v. calc_DOC heat cool = Inr v) \<and>
      (\<forall>cool'. length heat \<le> length cool' \<and>
               take (length heat) cool' = take (length heat) cool \<longrightarrow>
               calc_DOC heat cool' = calc_DOC heat cool)) \<and>
   (length cool < length heat \<longrightarrow> calc_DOC heat cool = Inl IndexError)"
proof (intro conjI impI allI)
  assume "heat \<noteq> [] \<and> length heat \<le> length cool"
  then show "\<exists>v. calc_DOC heat cool = Inr v" by (simp add: calc_DOC_eq)
next
  fix cool'
  assume a: "heat \<noteq> [] \<and> length heat \<le> length cool"
    and b: "length heat \<le> length cool' \<and> take (length heat) cool' = take (length heat) cool"
  from a have la: "length heat \<le> length cool" by blast
  from b have lb: "length heat \<le> length cool'"
    and tb: "take (length heat) cool' = take (length heat) cool" by blast+
  have "calc_DOC heat cool' = calc_DOC heat (take (length heat) cool')"
    by (rule calc_DOC_take [OF lb, symmetric])
  also have "\<dots> = calc_DOC heat (take (length heat) cool)" by (simp only: tb)
  also have "\<dots> = calc_DOC heat cool" by (rule calc_DOC_take [OF la])
  finally show "calc_DOC heat cool' = calc_DOC heat cool" .
next
  assume "length cool < length heat"
  then show "calc_DOC heat cool = Inl IndexError" by (rule calc_DOC_short)
qed

text \<open>
  Three heating steps against four cooling steps, with two different fourth entries, and
  against two cooling steps.
\<close>

theorem calc_DOC_ignores_tail_witness:
  "[1, 2, 3 :: real] \<noteq> [] \<and> length [1, 2, 3 :: real] \<le> length [1, 2, 3, 4 :: real] \<and>
   (\<exists>v. calc_DOC [1, 2, 3] [1, 2, 3, 4] = Inr v) \<and>
   length [1, 2, 3 :: real] \<le> length [1, 2, 3, 9 :: real] \<and>
   take (length [1, 2, 3 :: real]) [1, 2, 3, 9 :: real] = take (length [1, 2, 3 :: real]) [1, 2, 3, 4] \<and>
   calc_DOC [1, 2, 3] [1, 2, 3, 9] = calc_DOC [1, 2, 3] [1, 2, 3, 4] \<and>
   length [1, 2 :: real] < length [1, 2, 3 :: real] \<and>
   calc_DOC [1, 2, 3] [1, 2] = Inl IndexError"
proof -
  have h: "[1, 2, 3 :: real] \<noteq> [] \<and> length [1, 2, 3 :: real] \<le> length [1, 2, 3, 4 :: real]"
    and h': "length [1, 2, 3 :: real] \<le> length [1, 2, 3, 9 :: real] \<and>
      take (length [1, 2, 3 :: real]) [1, 2, 3, 9 :: real] = take (length [1, 2, 3 :: real]) [1, 2, 3, 4]"
    and s: "length [1, 2 :: real] < length [1, 2, 3 :: real]"
    by simp_all
  from calc_DOC_ignores_tail [of "[1, 2, 3]" "[1, 2, 3, 4]"] h h'
  have 1: "\<exists>v. calc_DOC [1, 2, 3] [1, 2, 3, 4] = Inr v"
    and 2: "calc_DOC [1, 2, 3] [1, 2, 3, 9] = calc_DOC [1, 2, 3] [1, 2, 3, 4]"
    by blast+
  from calc_DOC_ignores_tail [of "[1, 2, 3]" "[1, 2]"] s
  have 3: "calc_DOC [1, 2, 3] [1, 2] = Inl IndexError" by blast
  show ?thesis using h h' s 1 2 3 by blast
qed

text \<open>
  The call does not succeed for every \<open>cool_dem\<close> that is at least as long as
  \<open>heat_dem\<close>: with no heating steps both sums are the integer 0 and the division raises.
\<close>

theorem calc_DOC_ignores_tail_counterexample:
  "calc_DOC [] [1] = Inl ZeroDivisionError"
  by (simp add: calc_DOC_eq)

text \<open>
  Claim C6, as amended. \<open>calc_DOC\<close> compares no lengths and knows no DimensionMismatch
  error. Called with series of different lengths, it raises IndexError when \<open>cool\<close> is the
  shorter one; when \<open>cool\<close> is the longer one (heat of length 3 and cool of length 4, say)
  it returns the quotient over the time steps of \<open>heat\<close>, or raises ZeroDivisionError
  when \<open>heat\<close> is empty.
\<close>

theorem calc_DOC_length_mismatch:
  assumes "length heat \<noteq> length cool"
  shows "calc_DOC heat cool =
     (if length cool < length heat then Inl IndexError
      else if heat = [] then Inl ZeroDivisionError
      else Inr (np_divide (2 * (\<Sum>t<length heat. min (heat ! t) (cool ! t)))
                          (\<Sum>t<length heat. heat ! t + cool ! t)))"
proof (cases "length cool < length heat")
  case True
  then show ?thesis by (simp add: calc_DOC_short)
next
  case False
  then have "length heat \<le> length cool" by simp
  then show ?thesis using False by (simp add: calc_DOC_eq)
qed

text \<open>Lengths 3 and 4 in both orders.\<close>

theorem calc_DOC_length_mismatch_witness:
  "length [1, 2, 3 :: real] \<noteq> length [3, 2, 1, 7 :: real] \<and>
   calc_DOC [1, 2, 3] [3, 2, 1, 7] = Inr (Finite (2 / 3)) \<and>
   length [1, 2, 3, 4 :: real] \<noteq> length [1, 2, 3 :: real] \<and>
   calc_DOC [1, 2, 3, 4] [1, 2, 3] = Inl IndexError"
  using calc_DOC_length_mismatch [of "[1, 2, 3]" "[3, 2, 1, 7]"]
    calc_DOC_length_mismatch [of "[1, 2, 3, 4]" "[1, 2, 3]"]
  by (simp add: np_divide_def lessThan_Suc eval_nat_numeral)

text \<open>Heat of length 3 and cool of length 4: a number comes back, no error.\<close>

theorem calc_DOC_length_mismatch_counterexample:
  "calc_DOC [1, 2, 3] [1, 2, 3, 4] = Inr (Finite 1)"
  by (simp add: calc_DOC_eq np_divide_def lessThan_Suc eval_nat_numeral)

section \<open>Zero total demand\<close>

text \<open>
  Claim C7, as amended. The three functions have no policy for a zero denominator:
  none of them raises a DegenerateInput error or returns 0. On non-negative series of
  equal length with at least one time step and total demand zero each of them returns
  NaN; without any time step each of them raises ZeroDivisionError.
\<close>

theorem zero_total_demand:
  "(heat \<noteq> [] \<and> length heat = length cool \<and> nonneg heat \<and> nonneg cool \<and>
    (\<Sum>t<length heat. heat ! t + cool ! t) = 0 \<longrightarrow> calc_DOC heat cool = Inr NaN) \<and>
   (valid_input hl cl \<and> hl ! 0 \<noteq> [] \<and>
    (\<Sum>t<length (hl ! 0). \<Sum>e<length hl. hl ! e ! t + cl ! e ! t) = 0 \<longrightarrow>
      calc_mean_BES_DOC hl cl = Inr NaN \<and> calc_Network_DOC hl cl = Inr NaN) \<and>
   (valid_input hl cl \<and> hl ! 0 = [] \<longrightarrow>
      calc_mean_BES_DOC hl cl = Inl ZeroDivisionError \<and>
      calc_Network_DOC hl cl = Inl ZeroDivisionError) \<and>
   calc_DOC [] cool = Inl ZeroDivisionError"
proof (intro conjI impI)
  assume a: "heat \<noteq> [] \<and> length heat = length cool \<and> nonneg heat \<and> nonneg cool \<and>
    (\<Sum>t<length heat. heat ! t + cool ! t) = 0"
  then have ne: "heat \<noteq> []" and len: "length heat = length cool"
    and nn: "nonneg heat" "nonneg cool"
    and D: "(\<Sum>t<length heat. heat ! t + cool ! t) = 0" by blast+
  have "2 * (\<Sum>t<length heat. min (heat ! t) (cool ! t)) \<le> 0"
    using overlap_le_total [where n = "length heat" and heat = heat and cool = cool] D by simp
  with overlap_nonneg [OF len nn]
  have N: "(\<Sum>t<length heat. min (heat ! t) (cool ! t)) = 0" by simp
  have le: "length heat \<le> length cool" using len by simp
  show "calc_DOC heat cool = Inr NaN"
    unfolding calc_DOC_eq [OF le] N D using ne by (simp add: np_divide_def)
next
  assume a: "valid_input hl cl \<and> hl ! 0 \<noteq> [] \<and>
    (\<Sum>t<length (hl ! 0). \<Sum>e<length hl. hl ! e ! t + cl ! e ! t) = 0"
  then have v: "valid_input hl cl" and ne: "hl ! 0 \<noteq> []"
    and D: "(\<Sum>t<length (hl ! 0). \<Sum>e<length hl. hl ! e ! t + cl ! e ! t) = 0" by blast+
  note Z = zero_total_overlaps [OF v D]
  show "calc_mean_BES_DOC hl cl = Inr NaN"
    unfolding calc_mean_BES_DOC_eq [OF valid_input_index_safe [OF v]] total_by_entity Z D
    using ne by (simp add: np_divide_def)
  show "calc_Network_DOC hl cl = Inr NaN"
    unfolding calc_Network_DOC_eq [OF valid_input_index_safe [OF v]] total_by_entity Z D
    using ne by (simp add: np_divide_def)
next
  assume a: "valid_input hl cl \<and> hl ! 0 = []"
  then have v: "valid_input hl cl" and e: "hl ! 0 = []" by blast+
  show "calc_mean_BES_DOC hl cl = Inl ZeroDivisionError"
    unfolding calc_mean_BES_DOC_eq [OF valid_input_index_safe [OF v]] using e by simp
  show "calc_Network_DOC hl cl = Inl ZeroDivisionError"
    unfolding calc_Network_DOC_eq [OF valid_input_index_safe [OF v]] using e by simp
next
  show "calc_DOC [] cool = Inl ZeroDivisionError" by (simp add: calc_DOC_eq)
qed

text \<open>All-zero demand over two time steps, and two buildings without time steps.\<close>

theorem zero_total_demand_witness:
  "[0, 0 :: real] \<noteq> [] \<and> length [0, 0 :: real] = length [0, 0 :: real] \<and>
   nonneg [0, 0] \<and> (\<Sum>t<length [0, 0 :: real]. [0, 0] ! t + [0, 0 :: real] ! t) = 0 \<and>
   calc_DOC [0, 0] [0, 0] = Inr NaN \<and>
   valid_input [[0, 0], [0, 0]] [[0, 0], [0, 0]] \<and> [[0, 0], [0, 0 :: real]] ! 0 \<noteq> [] \<and>
   (\<Sum>t<length ([[0, 0], [0, 0 :: real]] ! 0). \<Sum>e<length [[0, 0], [0, 0 :: real]].
        [[0, 0], [0, 0]] ! e ! t + [[0, 0], [0, 0 :: real]] ! e ! t) = 0 \<and>
   calc_mean_BES_DOC [[0, 0], [0, 0]] [[0, 0], [0, 0]] = Inr NaN \<and>
   calc_Network_DOC [[0, 0], [0, 0]] [[0, 0], [0, 0]] = Inr NaN \<and>
   valid_input [[], []] [[], []] \<and> [[], [] :: real list] ! 0 = [] \<and>
   calc_mean_BES_DOC [[], []] [[], []] = Inl ZeroDivisionError \<and>
   calc_Network_DOC [[], []] [[], []] = Inl ZeroDivisionError"
proof -
  have h1: "[0, 0 :: real] \<noteq> [] \<and> length [0, 0 :: real] = length [0, 0 :: real] \<and>
    nonneg [0, 0] \<and> nonneg [0, 0] \<and>
    (\<Sum>t<length [0, 0 :: real]. [0, 0] ! t + [0, 0 :: real] ! t) = 0"
    by (simp add: nonneg_def)
  have h2: "valid_input [[0, 0], [0, 0]] [[0, 0], [0, 0]] \<and> [[0, 0], [0, 0 :: real]] ! 0 \<noteq> [] \<and>
    (\<Sum>t<length ([[0, 0], [0, 0 :: real]] ! 0). \<Sum>e<length [[0, 0], [0, 0 :: real]].
        [[0, 0], [0, 0]] ! e ! t + [[0, 0], [0, 0 :: real]] ! e ! t) = 0"
    by (simp add: valid_input_def nonneg_def lessThan_Suc eval_nat_numeral)
  have h3: "valid_input [[], []] [[], []] \<and> [[], [] :: real list] ! 0 = []"
    by (simp add: valid_input_def nonneg_def)
  from zero_total_demand [of "[0, 0]" "[0, 0]" "[[0, 0], [0, 0]]" "[[0, 0], [0, 0]]"] h1 h2
  have r1: "calc_DOC [0, 0] [0, 0] = Inr NaN"
    and r2: "calc_mean_BES_DOC [[0, 0], [0, 0]] [[0, 0], [0, 0]] = Inr NaN"
    and r3: "calc_Network_DOC [[0, 0], [0, 0]] [[0, 0], [0, 0]] = Inr NaN"
    by blast+
  from zero_total_demand [of "[0, 0]" "[0, 0]" "[[], []]" "[[], []]"] h3
  have r4: "calc_mean_BES_DOC [[], []] [[], []] = Inl ZeroDivisionError"
    and r5: "calc_Network_DOC [[], []] [[], []] = Inl ZeroDivisionError"
    by blast+
  from h1 h2 h3 r1 r2 r3 r4 r5 show ?thesis by blast
qed

text \<open>One time step without any demand: NaN from all three functions.\<close>

theorem zero_total_demand_counterexample:
  "calc_DOC [0] [0] = Inr NaN \<and>
   calc_mean_BES_DOC [[0]] [[0]] = Inr NaN \<and>
   calc_Network_DOC [[0]] [[0]] = Inr NaN"
  by (simp add: eval_defs)

section \<open>Net demands\<close>

text \<open>
  Claim C8. For heat and cold series of equal length the net-demand computation returns
  \<open>net_heat[t] = heat[t] - min(heat[t], cool[t])\<close> and
  \<open>net_cold[t] = cool[t] - min(heat[t], cool[t])\<close>; both are non-negative and at least
  one of them is zero at every time step, so \<open>min(net_heat[t], net_cold[t]) = 0\<close> and
  computing the net demands of \<open>(net_heat, net_cold)\<close> returns them unchanged. This holds
  for all real entries, the non-negative ones in particular.
\<close>

theorem net_demand_balanced:
  assumes "length heat = length cold"
  shows "\<exists>net_heat net_cold.
     net_demand heat cold = Inr (net_heat, net_cold) \<and>
     length net_heat = length heat \<and> length net_cold = length heat \<and>
     (\<forall>t<length heat.
        net_heat ! t = heat ! t - min (heat ! t) (cold ! t) \<and>
        net_cold ! t = cold ! t - min (heat ! t) (cold ! t) \<and>
        0 \<le> net_heat ! t \<and> 0 \<le> net_cold ! t \<and>
        (net_heat ! t = 0 \<or> net_cold ! t = 0) \<and>
        min (net_heat ! t) (net_cold ! t) = 0) \<and>
     net_demand net_heat net_cold = Inr (net_heat, net_cold)"
proof -
  let ?nh = "map2 (\<lambda>h c. h - min h c) heat cold"
  let ?nc = "map2 (\<lambda>h c. c - min h c) heat cold"
  have val: "net_demand heat cold = Inr (?nh, ?nc)" by (rule net_demand_eq [OF assms(1)])
  have len: "length ?nh = length heat" "length ?nc = length heat" using assms(1) by simp_all
  have pt: "?nh ! t = heat ! t - min (heat ! t) (cold ! t) \<and>
        ?nc ! t = cold ! t - min (heat ! t) (cold ! t) \<and>
        0 \<le> ?nh ! t \<and> 0 \<le> ?nc ! t \<and> (?nh ! t = 0 \<or> ?nc ! t = 0) \<and>
        min (?nh ! t) (?nc ! t) = 0" if "t < length heat" for t
    using that assms(1) by (auto simp: min_def)
  have "net_demand ?nh ?nc =
      Inr (map2 (\<lambda>h c. h - min h c) ?nh ?nc, map2 (\<lambda>h c. c - min h c) ?nh ?nc)"
    by (rule net_demand_eq) (simp add: len)
  moreover have "map2 (\<lambda>h c. h - min h c) ?nh ?nc = ?nh"
  proof (rule nth_equalityI)
    show "length (map2 (\<lambda>h c. h - min h c) ?nh ?nc) = length ?nh" by simp
    fix t assume "t < length (map2 (\<lambda>h c. h - min h c) ?nh ?nc)"
    then have t: "t < length heat" "t < length cold" using assms(1) by simp_all
    then show "map2 (\<lambda>h c. h - min h c) ?nh ?nc ! t = ?nh ! t"
      by (auto simp: min_def)
  qed
  moreover have "map2 (\<lambda>h c. c - min h c) ?nh ?nc = ?nc"
  proof (rule nth_equalityI)
    show "length (map2 (\<lambda>h c. c - min h c) ?nh ?nc) = length ?nc" by simp
    fix t assume "t < length (map2 (\<lambda>h c. c - min h c) ?nh ?nc)"
    then have t: "t < length heat" "t < length cold" using assms(1) by simp_all
    then show "map2 (\<lambda>h c. c - min h c) ?nh ?nc ! t = ?nc ! t"
      by (auto simp: min_def)
  qed
  ultimately have idem: "net_demand ?nh ?nc = Inr (?nh, ?nc)" by simp
  from val len pt idem show ?thesis by blast
qed

text \<open>Three time steps: heat-heavy, cold-heavy and balanced.\<close>

theorem net_demand_balanced_witness:
  "length [3, 1, 2 :: real] = length [1, 4, 2 :: real] \<and>
   net_demand [3, 1, 2] [1, 4, 2] = Inr ([2, 0, 0], [0, 3, 0]) \<and>
   net_demand [2, 0, 0] [0, 3, 0] = Inr ([2, 0, 0], [0, 3, 0])"
proof -
  have h: "length [3, 1, 2 :: real] = length [1, 4, 2 :: real]"
    by simp
  have v: "net_demand [3, 1, 2] [1, 4, 2] = Inr ([2, 0, 0], [0, 3, 0])"
    by (simp add: net_demand_def np_min_axis0_def np_subtract_def)
  from net_demand_balanced [OF h] v
  have "net_demand [2, 0, 0] [0, 3, 0] = Inr ([2, 0, 0], [0, 3, 0])"
    by auto
  with h v show ?thesis by blast
qed

end
